theory Spec2Isabelle
  imports Complex_Main
begin

section \<open>The SafeAI dashboard: session state of the \<open>App\<close> component\<close>

text \<open>
  The repository holds three versions of \<open>App.tsx\<close>. The one that keeps the statistics on
  the client (\<open>src/unnamed/part_001\<close>) is embedded in full: its React state is a record, the
  asynchronous function \<open>analyze\<close> is split at its single \<open>await\<close> into the part that runs
  in the click handler and the part that runs when the request settles, and the user
  interface is a transition function over events. JavaScript numbers are taken as real
  numbers (no rounding), counters as naturals, strings as lists of 8-bit characters.
  Of the two other versions only the pieces that the properties below refer to are embedded.
\<close>

subsection \<open>Strings\<close>

text \<open>\<open>String.prototype.trim\<close>: white space and line terminators are removed at both ends
  (tab, line feed, vertical tab, form feed, carriage return, space, no-break space).\<close>

definition is_ws :: "char \<Rightarrow> bool" where
  "is_ws c = (c \<in> set [CHR 0x09, CHR 0x0A, CHR 0x0B, CHR 0x0C, CHR 0x0D, CHR 0x20, CHR 0xA0])"

definition trim :: "string \<Rightarrow> string" where
  "trim s = rev (dropWhile is_ws (rev (dropWhile is_ws s)))"

text \<open>\<open>String(n)\<close> for a non-negative integer: its decimal digits.\<close>

fun String_nat :: "nat \<Rightarrow> string" where
  "String_nat n =
     (if n < 10 then [''0123456789'' ! n]
      else String_nat (n div 10) @ [''0123456789'' ! (n mod 10)])"

declare String_nat.simps [simp del]

text \<open>\<open>s.padStart(n, c)\<close> for a one-character pad string.\<close>

definition padStart :: "nat \<Rightarrow> char \<Rightarrow> string \<Rightarrow> string" where
  "padStart n c s = replicate (n - length s) c @ s"

subsection \<open>Presentation: \<open>getSafetyLevel\<close>\<close>

datatype SafetyLevel = LOW | MEDIUM | HIGH

definition getSafetyLevel :: "real \<Rightarrow> SafetyLevel" where
  "getSafetyLevel score =
     (if score < 20 then LOW else if score < 60 then MEDIUM else HIGH)"

subsection \<open>Data\<close>

text \<open>The parsed body \<open>data\<close> of a successful response, as far as the code looks at it.
  It reads eight fields, each of which may be missing (\<open>undefined\<close> or \<open>null\<close>, which
  \<open>??\<close> treats alike); \<open>data_threats\<close> is \<open>Some ts\<close> exactly when
  \<open>Array.isArray(data.threats)\<close>. It also tests the stored body for truthiness
  (\<open>latestResult ? \<dots> : 100\<close>): every object and array is truthy, the bodies \<open>0\<close>,
  \<open>false\<close> and \<open>""\<close> are not, and all their fields read as missing. The body \<open>null\<close>
  is not a \<open>response\<close>: reading a field of it throws.\<close>

record response =
  data_id :: "string option"
  data_is_safe :: "bool option"
  data_risk_score :: "real option"
  data_threats :: "string list option"
  data_threats_detected :: "nat option"
  data_safe_pct :: "real option"
  data_created_at :: "string option"
  data_text :: "string option"
  data_truthy :: bool

text \<open>An element of \<open>history\<close>, as built by the updater passed to \<open>setHistory\<close>.\<close>

record entry =
  entry_id :: string
  entry_created_at :: string
  entry_text :: string
  entry_risk_score :: real
  entry_is_safe :: bool

text \<open>How the request of one call of \<open>analyze\<close> settles. The first four are the ways in
  which the \<open>try\<close> block throws: \<open>fetch\<close> rejects, the status is not 2xx, \<open>res.json()\<close>
  rejects, or the body is the JSON value \<open>null\<close>, so that reading \<open>data.risk_score\<close>
  raises a TypeError. The strings are the messages of the exceptions.\<close>

datatype fetch_outcome =
    Fetch_rejected string
  | Status_not_ok nat
  | Json_rejected string
  | Body_null string
  | Body response

text \<open>A call of \<open>analyze\<close> suspended at its \<open>await\<close>: the closure holds the values of
  \<open>input\<close> and \<open>totalAnalyses\<close> of the render in which the handler was created.\<close>

record pending =
  closure_input :: string
  closure_totalAnalyses :: nat

text \<open>The \<open>useState\<close> cells of the component, and the calls of \<open>analyze\<close> that have not
  settled yet (oldest first).\<close>

record state =
  input :: string
  isAnalyzing :: bool
  error :: "string option"
  totalAnalyses :: nat
  threatsDetected :: nat
  avgRiskScore :: real
  latestResult :: "response option"
  history :: "entry list"
  inflight :: "pending list"

definition init :: state where
  "init = \<lparr> input = [], isAnalyzing = False, error = None, totalAnalyses = 0,
            threatsDetected = 0, avgRiskScore = 0, latestResult = None, history = [],
            inflight = [] \<rparr>"

subsection \<open>\<open>analyze\<close>\<close>

text \<open>\<open>const risk = data.risk_score ?? 0\<close>\<close>

definition risk :: "response \<Rightarrow> real" where
  "risk data = (case data_risk_score data of None \<Rightarrow> 0 | Some r \<Rightarrow> r)"

text \<open>\<open>Array.isArray(data.threats) ? data.threats.length : (data.threats_detected ?? 0)\<close>\<close>

definition threatsCount :: "response \<Rightarrow> nat" where
  "threatsCount data =
     (case data_threats data of
        Some ts \<Rightarrow> length ts
      | None \<Rightarrow> (case data_threats_detected data of None \<Rightarrow> 0 | Some n \<Rightarrow> n))"

text \<open>The updater passed to \<open>setAvgRiskScore\<close>; \<open>n\<close> is the \<open>totalAnalyses\<close> of the
  closure, not the current value of the cell.\<close>

definition nextAvgRiskScore :: "nat \<Rightarrow> real \<Rightarrow> real \<Rightarrow> real" where
  "nextAvgRiskScore n r prevAvg =
     (if n = 0 then r else (prevAvg * real n + r) / real (n + 1))"

text \<open>The object literal at the head of \<open>next\<close> in the updater passed to \<open>setHistory\<close>;
  \<open>now\<close> is \<open>new Date().toISOString()\<close>.\<close>

definition new_entry :: "pending \<Rightarrow> response \<Rightarrow> string \<Rightarrow> entry list \<Rightarrow> entry" where
  "new_entry p data now prev =
     \<lparr> entry_id = (case data_id data of
                     Some i \<Rightarrow> i
                   | None \<Rightarrow> ''SA-'' @ padStart 6 (CHR ''0'') (String_nat (length prev + 1))),
       entry_created_at = (case data_created_at data of Some t \<Rightarrow> t | None \<Rightarrow> now),
       entry_text = (case data_text data of Some t \<Rightarrow> t | None \<Rightarrow> closure_input p),
       entry_risk_score = risk data,
       entry_is_safe = (case data_is_safe data of Some b \<Rightarrow> b | None \<Rightarrow> risk data < 20) \<rparr>"

text \<open>\<open>[x, ...prev].slice(0, 5)\<close>, also the updater of the version in
  \<open>src/unnamed/part_000\<close>, where \<open>x\<close> is the response itself.\<close>

definition nextHistory :: "'a \<Rightarrow> 'a list \<Rightarrow> 'a list" where
  "nextHistory x prev = take 5 (x # prev)"

text \<open>The synchronous part of \<open>analyze\<close>, up to the \<open>await\<close>. The second component is the
  \<open>text\<close> of the request that was sent, if one was.\<close>

definition analyze :: "state \<Rightarrow> state \<times> string option" where
  "analyze s =
     (if trim (input s) = [] then (s, None)
      else (s\<lparr> isAnalyzing := True, error := None,
                inflight := inflight s @
                  [\<lparr> closure_input = input s, closure_totalAnalyses = totalAnalyses s \<rparr>] \<rparr>,
            Some (input s)))"

text \<open>The statements of the \<open>try\<close> block after a body has been parsed.\<close>

definition fold_result :: "pending \<Rightarrow> response \<Rightarrow> string \<Rightarrow> state \<Rightarrow> state" where
  "fold_result p data now s =
     s\<lparr> latestResult := Some data,
        totalAnalyses := totalAnalyses s + 1,
        threatsDetected := threatsDetected s + threatsCount data,
        avgRiskScore := nextAvgRiskScore (closure_totalAnalyses p) (risk data) (avgRiskScore s),
        history := nextHistory (new_entry p data now (history s)) (history s) \<rparr>"

text \<open>\<open>setError(err.message || "Something went wrong while analyzing.")\<close>\<close>

definition catch_error :: "string \<Rightarrow> state \<Rightarrow> state" where
  "catch_error msg s =
     s\<lparr> error := Some (if msg = [] then ''Something went wrong while analyzing.'' else msg) \<rparr>"

text \<open>The rest of \<open>analyze\<close>, run when the request of the suspended call \<open>p\<close> settles:
  \<open>try\<close>, \<open>catch\<close>, \<open>finally\<close>.\<close>

definition analyze_settled :: "pending \<Rightarrow> fetch_outcome \<Rightarrow> string \<Rightarrow> state \<Rightarrow> state" where
  "analyze_settled p out now s =
     (case out of
        Fetch_rejected msg \<Rightarrow> catch_error msg s
      | Status_not_ok status \<Rightarrow> catch_error (''API responded with '' @ String_nat status) s
      | Json_rejected msg \<Rightarrow> catch_error msg s
      | Body_null msg \<Rightarrow> catch_error msg (s\<lparr> latestResult := None \<rparr>)
      | Body data \<Rightarrow> fold_result p data now s)
     \<lparr> isAnalyzing := False \<rparr>"

subsection \<open>Values derived at render time\<close>

definition safePct :: "state \<Rightarrow> real" where
  "safePct s =
     (case latestResult s of
        None \<Rightarrow> 100
      | Some data \<Rightarrow>
          (case data_safe_pct data of
             Some pct \<Rightarrow> pct
           | None \<Rightarrow>
               (if data_truthy data
                then (if data_is_safe data = Some True then 100 else 0)
                else 100)))"

definition unsafePct :: "state \<Rightarrow> real" where
  "unsafePct s = 100 - safePct s"

definition riskScore :: "state \<Rightarrow> real" where
  "riskScore s = (case latestResult s of None \<Rightarrow> 0 | Some data \<Rightarrow> risk data)"

definition level :: "state \<Rightarrow> SafetyLevel" where
  "level s = getSafetyLevel (riskScore s)"

text \<open>The \<open>disabled\<close> attribute of the button whose \<open>onClick\<close> is \<open>analyze\<close>, the only
  place where \<open>analyze\<close> is called.\<close>

definition button_disabled :: "state \<Rightarrow> bool" where
  "button_disabled s = (isAnalyzing s \<or> trim (input s) = [])"

subsection \<open>The component as a transition system\<close>

text \<open>What can happen to the mounted component: the text area changes, an example chip is
  clicked, the button is clicked, or the request of the \<open>i\<close>-th unsettled call settles
  (with the time of the client's clock).\<close>

datatype event =
    SetInput string
  | ExampleClick string
  | ClickAnalyze
  | Settle nat fetch_outcome string

definition handleExampleClick :: "string \<Rightarrow> state \<Rightarrow> state" where
  "handleExampleClick t s = s\<lparr> input := t, latestResult := None, error := None \<rparr>"

fun step :: "state \<Rightarrow> event \<Rightarrow> state" where
  "step s (SetInput t) = s\<lparr> input := t \<rparr>"
| "step s (ExampleClick t) = handleExampleClick t s"
| "step s ClickAnalyze = (if button_disabled s then s else fst (analyze s))"
| "step s (Settle i out now) =
     (if i < length (inflight s)
      then analyze_settled (inflight s ! i) out now
             (s\<lparr> inflight := take i (inflight s) @ drop (Suc i) (inflight s) \<rparr>)
      else s)"

definition run :: "state \<Rightarrow> event list \<Rightarrow> state" where
  "run s es = foldl step s es"

text \<open>The entries that a run pushes to the history, in the order of their creation: one for
  each request that settles with a body.\<close>

fun pushed :: "state \<Rightarrow> event \<Rightarrow> entry list" where
  "pushed s (Settle i (Body data) now) =
     (if i < length (inflight s) then [new_entry (inflight s ! i) data now (history s)] else [])"
| "pushed s _ = []"

fun built :: "state \<Rightarrow> event list \<Rightarrow> entry list" where
  "built s [] = []"
| "built s (e # es) = pushed s e @ built (step s e) es"


text \<open>The requests that a run sends, in the same style: the \<open>text\<close> of each \<open>POST\<close>.\<close>

fun sent :: "state \<Rightarrow> event \<Rightarrow> string list" where
  "sent s ClickAnalyze =
     (if button_disabled s then []
      else (case snd (analyze s) of None \<Rightarrow> [] | Some t \<Rightarrow> [t]))"
| "sent s _ = []"

fun requests :: "state \<Rightarrow> event list \<Rightarrow> string list" where
  "requests s [] = []"
| "requests s (e # es) = sent s e @ requests (step s e) es"

text \<open>The outcomes on which \<open>analyze\<close> reaches its \<open>catch\<close> block.\<close>

fun failed :: "fetch_outcome \<Rightarrow> bool" where
  "failed (Body data) = False"
| "failed _ = True"

text \<open>What holds of the unsettled calls when \<open>analyze\<close> is only ever started by the button:
  there is at most one, the busy flag is set exactly while there is one, and its closure
  has the current \<open>totalAnalyses\<close>.\<close>

definition ui_inv :: "state \<Rightarrow> bool" where
  "ui_inv s =
     (case inflight s of
        [] \<Rightarrow> \<not> isAnalyzing s
      | [p] \<Rightarrow> isAnalyzing s \<and> closure_totalAnalyses p = totalAnalyses s
      | _ \<Rightarrow> False)"

text \<open>The state of the statistics before the first result.\<close>

definition fresh :: "state \<Rightarrow> bool" where
  "fresh s =
     (threatsDetected s = 0 \<and> avgRiskScore s = 0 \<and> latestResult s = None \<and> history s = [])"

text \<open>Inputs for the examples: typing a text, clicking the button and the request settling;
  a response that carries a risk score and a verdict and nothing else.\<close>

definition submit :: "string \<Rightarrow> fetch_outcome \<Rightarrow> string \<Rightarrow> event list" where
  "submit t out now = [SetInput t, ClickAnalyze, Settle 0 out now]"

definition verdict :: "real \<Rightarrow> bool \<Rightarrow> response" where
  "verdict r b =
     \<lparr> data_id = None, data_is_safe = Some b, data_risk_score = Some r,
       data_threats = Some [], data_threats_detected = None, data_safe_pct = None,
       data_created_at = None, data_text = None, data_truthy = True \<rparr>"

text \<open>The body \<open>{}\<close>: an object without any of the fields.\<close>

definition empty_body :: response where
  "empty_body =
     \<lparr> data_id = None, data_is_safe = None, data_risk_score = None,
       data_threats = None, data_threats_detected = None, data_safe_pct = None,
       data_created_at = None, data_text = None, data_truthy = True \<rparr>"

subsection \<open>The version in \<open>src/src/App.tsx\<close>\<close>

text \<open>This version shows statistics that it fetches from the service. Embedded are the
  initial value of its \<open>stats\<close> cell, \<open>getRiskBadge\<close>, and \<open>analyzeText\<close> up to its
  \<open>await\<close> together with the \<open>disabled\<close> attribute of its button.\<close>

record Stats =
  total_analyses :: nat
  threats_detected :: nat
  average_risk_score :: real
  safe_percentage :: real
  threat_breakdown :: "(string \<times> nat) list"
  uptime_hours :: real

definition initial_stats :: Stats where
  "initial_stats =
     \<lparr> total_analyses = 0, threats_detected = 0, average_risk_score = 0,
       safe_percentage = 100, threat_breakdown = [], uptime_hours = 0 \<rparr>"

text \<open>The \<open>label\<close> of the badge (the \<open>color\<close> is fixed by the label).\<close>

definition getRiskBadge :: "real \<Rightarrow> string" where
  "getRiskBadge score =
     (if score < 30 then ''LOW RISK''
      else if score < 60 then ''MEDIUM RISK''
      else if score < 80 then ''HIGH RISK''
      else ''CRITICAL RISK'')"

datatype effect = Alert string | Post string

definition analyzeText :: "string \<Rightarrow> bool \<Rightarrow> bool \<times> effect list" where
  "analyzeText inputText analyzing =
     (if trim inputText = [] then (analyzing, [Alert ''Please enter some text to analyze''])
      else (True, [Post inputText]))"

definition analyzeText_disabled :: "string \<Rightarrow> bool \<Rightarrow> bool" where
  "analyzeText_disabled inputText analyzing =
     (analyzing \<or> trim inputText = [] \<or> length inputText > 10000)"

definition click_analyzeText :: "string \<Rightarrow> bool \<Rightarrow> bool \<times> effect list" where
  "click_analyzeText inputText analyzing =
     (if analyzeText_disabled inputText analyzing then (analyzing, [])
      else analyzeText inputText analyzing)"

section \<open>Properties\<close>

subsection \<open>Auxiliary facts\<close>

lemma dropWhile_all:
  "(\<forall>x \<in> set (dropWhile P xs). P x) \<longleftrightarrow> (\<forall>x \<in> set xs. P x)"
  by (induction xs) auto

lemma trim_Nil_iff: "trim s = [] \<longleftrightarrow> (\<forall>c \<in> set s. is_ws c)"
  by (simp add: trim_def dropWhile_all)

lemma run_Nil [simp]: "run s [] = s"
  by (simp add: run_def)

lemma run_Cons [simp]: "run s (e # es) = run (step s e) es"
  by (simp add: run_def)

lemma run_append: "run s (es @ es') = run (run s es) es'"
  by (simp add: run_def)

lemma ui_inv_init: "ui_inv init"
  by (simp add: ui_inv_def init_def)

lemma ui_inv_iff:
  "ui_inv s \<longleftrightarrow>
     inflight s = [] \<and> \<not> isAnalyzing s \<or>
     (\<exists>p. inflight s = [p] \<and> isAnalyzing s \<and> closure_totalAnalyses p = totalAnalyses s)"
  by (auto simp: ui_inv_def split: list.splits)

lemma ui_inv_cases:
  assumes "ui_inv s"
  obtains "inflight s = []" "\<not> isAnalyzing s"
  | p where "inflight s = [p]" "isAnalyzing s" "closure_totalAnalyses p = totalAnalyses s"
  using assms by (auto simp: ui_inv_iff)

lemma ui_inv_settled:
  "inflight s = [] \<Longrightarrow> ui_inv (analyze_settled p out now s)"
  by (cases out)
     (simp_all add: ui_inv_iff analyze_settled_def catch_error_def fold_result_def)

lemma ui_inv_step: "ui_inv s \<Longrightarrow> ui_inv (step s e)"
proof (cases e)
  case (SetInput t)
  assume "ui_inv s"
  then show ?thesis by (simp add: SetInput ui_inv_iff)
next
  case (ExampleClick t)
  assume "ui_inv s"
  then show ?thesis by (simp add: ExampleClick ui_inv_iff handleExampleClick_def)
next
  case ClickAnalyze
  assume "ui_inv s"
  then show ?thesis
    by (cases rule: ui_inv_cases)
       (simp_all add: ClickAnalyze ui_inv_iff button_disabled_def analyze_def)
next
  case (Settle i out now)
  assume "ui_inv s"
  then show ?thesis
  proof (cases rule: ui_inv_cases)
    case 1
    with \<open>ui_inv s\<close> show ?thesis by (simp add: Settle)
  next
    case (2 p)
    show ?thesis
    proof (cases "i = 0")
      case True
      then show ?thesis by (simp add: Settle 2 ui_inv_settled)
    next
      case False
      with \<open>ui_inv s\<close> show ?thesis by (simp add: Settle 2)
    qed
  qed
qed

lemma ui_inv_run: "ui_inv s \<Longrightarrow> ui_inv (run s es)"
  by (induction es arbitrary: s) (simp_all add: ui_inv_step)

lemma ui_inv_reachable: "ui_inv (run init es)"
  by (rule ui_inv_run [OF ui_inv_init])

lemma nextAvg_sum: "nextAvgRiskScore n r a * real (n + 1) = a * real n + r"
  by (simp add: nextAvgRiskScore_def)

lemma nextAvg_incremental: "nextAvgRiskScore n r a = a + (r - a) / real (n + 1)"
proof -
  have "(a + (r - a) / real (n + 1)) * real (n + 1) = a * real n + r"
    by (simp add: field_simps)
  with nextAvg_sum [of n r a]
  have "nextAvgRiskScore n r a * real (n + 1) = (a + (r - a) / real (n + 1)) * real (n + 1)"
    by simp
  then show ?thesis by simp
qed

lemma step_total: "totalAnalyses (step s e) = totalAnalyses s + length (pushed s e)"
  by (cases e)
     (auto simp: handleExampleClick_def analyze_def analyze_settled_def catch_error_def
                 fold_result_def split: fetch_outcome.splits)

lemma run_total: "totalAnalyses (run s es) = totalAnalyses s + length (built s es)"
  by (induction es arbitrary: s) (simp_all add: step_total)

lemma step_sum:
  assumes "ui_inv s"
  shows "avgRiskScore (step s e) * real (totalAnalyses (step s e)) =
         avgRiskScore s * real (totalAnalyses s) + sum_list (map entry_risk_score (pushed s e))"
proof (cases e)
  case (Settle i out now)
  show ?thesis
  proof (cases out)
    case (Body d)
    show ?thesis
    proof (cases "i < length (inflight s)")
      case True
      with assms obtain p where p: "inflight s = [p]" "closure_totalAnalyses p = totalAnalyses s"
        by (auto elim: ui_inv_cases)
      with True have i: "i = 0" by simp
      show ?thesis
        using nextAvg_sum [of "totalAnalyses s" "risk d" "avgRiskScore s"]
        by (simp add: Settle Body p i analyze_settled_def fold_result_def new_entry_def)
    next
      case False
      then show ?thesis by (simp add: Settle Body)
    qed
  qed (simp_all add: Settle analyze_settled_def catch_error_def)
qed (simp_all add: handleExampleClick_def analyze_def)

lemma run_sum:
  "ui_inv s \<Longrightarrow>
   avgRiskScore (run s es) * real (totalAnalyses (run s es)) =
   avgRiskScore s * real (totalAnalyses s) + sum_list (map entry_risk_score (built s es))"
proof (induction es arbitrary: s)
  case Nil
  then show ?case by simp
next
  case (Cons e es)
  from Cons.prems have "ui_inv (step s e)" by (rule ui_inv_step)
  from Cons.IH [OF this] step_sum [OF Cons.prems, of e]
  show ?case by simp
qed

lemma step_history:
  "length (history s) \<le> 5 \<Longrightarrow> history (step s e) = take 5 (rev (pushed s e) @ history s)"
  by (cases e)
     (auto simp: handleExampleClick_def analyze_def analyze_settled_def catch_error_def
                 fold_result_def nextHistory_def split: fetch_outcome.splits)

lemma step_history_le: "length (history s) \<le> 5 \<Longrightarrow> length (history (step s e)) \<le> 5"
  by (simp add: step_history)

lemma take_append_take: "take n (xs @ take n ys) = take n (xs @ ys)"
  by (simp add: min_def)

lemma run_history:
  "length (history s) \<le> 5 \<Longrightarrow> history (run s es) = take 5 (rev (built s es) @ history s)"
proof (induction es arbitrary: s)
  case Nil
  then show ?case by simp
next
  case (Cons e es)
  have "history (run (step s e) es) = take 5 (rev (built (step s e) es) @ history (step s e))"
    using Cons.prems by (intro Cons.IH step_history_le)
  also have "history (step s e) = take 5 (rev (pushed s e) @ history s)"
    using Cons.prems by (rule step_history)
  finally show ?case by (simp add: take_append_take del: take_append)
qed

lemma foldl_nextHistory:
  "length h \<le> 5 \<Longrightarrow> foldl (\<lambda>prev x. nextHistory x prev) h xs = take 5 (rev xs @ h)"
proof (induction xs arbitrary: h)
  case Nil
  then show ?case by simp
next
  case (Cons x xs)
  have "foldl (\<lambda>prev x. nextHistory x prev) (nextHistory x h) xs =
        take 5 (rev xs @ nextHistory x h)"
    by (rule Cons.IH) (simp add: nextHistory_def)
  also have "\<dots> = take 5 (rev xs @ x # h)"
    unfolding nextHistory_def by (rule take_append_take)
  finally show ?case by simp
qed

lemma step_inflight:
  "length (inflight (step s e)) + length (pushed s e) \<le> length (inflight s) + length (sent s e)"
proof (cases e)
  case (Settle i out now)
  then show ?thesis
    by (cases out)
       (auto simp: analyze_settled_def catch_error_def fold_result_def)
qed (simp_all add: handleExampleClick_def analyze_def button_disabled_def)

lemma run_inflight:
  "length (inflight (run s es)) + length (built s es) \<le>
   length (inflight s) + length (requests s es)"
proof (induction es arbitrary: s)
  case Nil
  show ?case by simp
next
  case (Cons e es)
  from Cons.IH [of "step s e"] step_inflight [of s e]
  show ?case by simp
qed

lemma settle_failed:
  "failed out \<Longrightarrow>
   totalAnalyses (analyze_settled p out now s) = totalAnalyses s \<and>
   threatsDetected (analyze_settled p out now s) = threatsDetected s \<and>
   avgRiskScore (analyze_settled p out now s) = avgRiskScore s \<and>
   history (analyze_settled p out now s) = history s"
  by (cases out) (simp_all add: analyze_settled_def catch_error_def)

lemma click_aggregates:
  "totalAnalyses (step s ClickAnalyze) = totalAnalyses s \<and>
   threatsDetected (step s ClickAnalyze) = threatsDetected s \<and>
   avgRiskScore (step s ClickAnalyze) = avgRiskScore s \<and>
   history (step s ClickAnalyze) = history s"
  by (simp add: analyze_def)

lemma step_fresh:
  assumes "totalAnalyses s = 0 \<longrightarrow> fresh s" and "totalAnalyses (step s e) = 0"
  shows "fresh (step s e)"
proof -
  from assms(2) step_total [of s e] have z: "totalAnalyses s = 0" and np: "pushed s e = []"
    by simp_all
  from z assms(1) have f: "fresh s" by simp
  show ?thesis
  proof (cases e)
    case (Settle i out now)
    show ?thesis
    proof (cases out)
      case (Body d)
      with np Settle have "\<not> i < length (inflight s)" by (simp split: if_splits)
      with f show ?thesis by (simp add: Settle)
    qed (use f in \<open>simp_all add: Settle fresh_def analyze_settled_def catch_error_def\<close>)
  qed (use f in \<open>simp_all add: fresh_def handleExampleClick_def analyze_def\<close>)
qed

lemma run_fresh:
  "totalAnalyses s = 0 \<longrightarrow> fresh s \<Longrightarrow> totalAnalyses (run s es) = 0 \<Longrightarrow> fresh (run s es)"
proof (induction es arbitrary: s)
  case Nil
  then show ?case by simp
next
  case (Cons e es)
  have "totalAnalyses (step s e) = 0 \<longrightarrow> fresh (step s e)"
    using step_fresh [OF Cons.prems(1)] by blast
  from Cons.IH [OF this] Cons.prems(2) show ?case by simp
qed


subsection \<open>Where the guards are\<close>

text \<open>
  \<open>analyze\<close> tests the input but not \<open>isAnalyzing\<close>: the busy guard of the component is
  the \<open>disabled\<close> attribute of the button. The version in \<open>src/src/App.tsx\<close> has its own
  risk bands (four labels, thresholds 30, 60 and 80), and its \<open>analyzeText\<close> answers blank
  text with an alert, which a click cannot reach since the button is disabled then.
\<close>

lemma analyze_no_busy_test:
  "trim (input s) \<noteq> [] \<Longrightarrow> snd (analyze s) = Some (input s)"
  by (simp add: analyze_def)

lemma getRiskBadge_bands:
  "getRiskBadge 25 = ''LOW RISK'' \<and> getSafetyLevel 25 = MEDIUM \<and>
   getRiskBadge 85 = ''CRITICAL RISK'' \<and> getSafetyLevel 85 = HIGH"
  by (simp add: getRiskBadge_def getSafetyLevel_def)

lemma analyzeText_blank:
  "trim inputText = [] \<Longrightarrow>
     click_analyzeText inputText analyzing = (analyzing, []) \<and>
     analyzeText inputText analyzing = (analyzing, [Alert ''Please enter some text to analyze''])"
  by (simp add: click_analyzeText_def analyzeText_disabled_def analyzeText_def)

subsection \<open>Running mean of the risk score\<close>

text \<open>
  Claim C1. Let \<open>r\<^sub>1, \<dots>, r\<^sub>N\<close> be the risk scores of the results that a run of the
  component has folded (one per request that settled with a body, \<open>N > 0\<close>). Then
  \<open>avgRiskScore\<close> is their arithmetic mean. Each fold computes the new mean from the
  previous mean and the previous count alone, as \<open>mean + (risk - mean) / (n + 1)\<close>, and the
  value does not depend on the stored history. Numbers are real numbers here, so the
  equalities are exact.
\<close>

theorem C1_running_mean:
  "(built init es \<noteq> [] \<longrightarrow>
      avgRiskScore (run init es) =
      sum_list (map entry_risk_score (built init es)) / real (length (built init es))) \<and>
   (i < length (inflight (run init es)) \<longrightarrow>
      avgRiskScore (step (run init es) (Settle i (Body data) now)) =
      avgRiskScore (run init es) +
        (risk data - avgRiskScore (run init es)) / real (totalAnalyses (run init es) + 1)) \<and>
   avgRiskScore (step (s\<lparr> history := h \<rparr>) e) = avgRiskScore (step s e)"
proof (intro conjI impI)
  assume ne: "built init es \<noteq> []"
  have n: "totalAnalyses (run init es) = length (built init es)"
    using run_total [of init es] by (simp add: init_def)
  have "avgRiskScore (run init es) * real (totalAnalyses (run init es)) =
        sum_list (map entry_risk_score (built init es))"
    using run_sum [OF ui_inv_init, of es] by (simp add: init_def)
  with n ne show "avgRiskScore (run init es) =
      sum_list (map entry_risk_score (built init es)) / real (length (built init es))"
    by (simp add: field_simps)
next
  let ?s = "run init es"
  assume i: "i < length (inflight ?s)"
  have "ui_inv ?s" by (rule ui_inv_reachable)
  with i obtain p where p: "inflight ?s = [p]" "closure_totalAnalyses p = totalAnalyses ?s"
    by (auto elim: ui_inv_cases)
  with i have "i = 0" by simp
  with p show "avgRiskScore (step ?s (Settle i (Body data) now)) =
      avgRiskScore ?s + (risk data - avgRiskScore ?s) / real (totalAnalyses ?s + 1)"
    by (simp add: analyze_settled_def fold_result_def nextAvg_incremental)
next
  show "avgRiskScore (step (s\<lparr> history := h \<rparr>) e) = avgRiskScore (step s e)"
  proof (cases e)
    case (Settle i out now)
    then show ?thesis
      by (cases out) (simp_all add: analyze_settled_def catch_error_def fold_result_def)
  qed (simp_all add: handleExampleClick_def analyze_def button_disabled_def)
qed

theorem C1_running_mean_witness:
  "built init (submit ''a'' (Body (verdict 10 True)) ''t1'' @
               submit ''b'' (Body (verdict 40 False)) ''t2'') \<noteq> [] \<and>
   avgRiskScore (run init (submit ''a'' (Body (verdict 10 True)) ''t1'' @
                           submit ''b'' (Body (verdict 40 False)) ''t2'')) = 25 \<and>
   0 < length (inflight (run init (submit ''a'' (Body (verdict 10 True)) ''t1'' @
                                   [SetInput ''b'', ClickAnalyze]))) \<and>
   avgRiskScore (step (run init (submit ''a'' (Body (verdict 10 True)) ''t1'' @
                                 [SetInput ''b'', ClickAnalyze]))
                      (Settle 0 (Body (verdict 40 False)) ''t2'')) = 10 + (40 - 10) / 2"
proof -
  let ?es = "submit ''a'' (Body (verdict 10 True)) ''t1'' @
             submit ''b'' (Body (verdict 40 False)) ''t2''"
  let ?es' = "submit ''a'' (Body (verdict 10 True)) ''t1'' @ [SetInput ''b'', ClickAnalyze]"
  have b: "map entry_risk_score (built init ?es) = [10, 40]"
    by code_simp
  have l: "length (built init ?es) = 2"
    using arg_cong [OF b, of length] by simp
  then have ne: "built init ?es \<noteq> []" by auto
  from C1_running_mean [of ?es] ne
  have "avgRiskScore (run init ?es) =
        sum_list (map entry_risk_score (built init ?es)) / real (length (built init ?es))"
    by blast
  also have "\<dots> = 25"
    by (simp add: b l)
  finally have mean: "avgRiskScore (run init ?es) = 25" .
  have i: "0 < length (inflight (run init ?es'))" by code_simp
  have a: "avgRiskScore (run init ?es') = 10" by code_simp
  have n: "totalAnalyses (run init ?es') = 1" by code_simp
  have r: "risk (verdict 40 False) = 40" by (simp add: risk_def verdict_def)
  from C1_running_mean [where es = ?es' and i = 0 and data = "verdict 40 False"] i
  have "avgRiskScore (step (run init ?es') (Settle 0 (Body (verdict 40 False)) ''t2'')) =
        avgRiskScore (run init ?es') +
          (risk (verdict 40 False) - avgRiskScore (run init ?es')) /
          real (totalAnalyses (run init ?es') + 1)"
    by blast
  then have "avgRiskScore (step (run init ?es') (Settle 0 (Body (verdict 40 False)) ''t2'')) =
        10 + (40 - 10) / 2"
    by (simp add: a n r)
  with ne mean i show ?thesis by blast
qed

subsection \<open>Failed requests\<close>

text \<open>
  Claim C2, as the code has it. When the request of a call of \<open>analyze\<close> fails because
  \<open>fetch\<close> rejects, the status is not 2xx, the body is not JSON or the body is \<open>null\<close>,
  then \<open>totalAnalyses\<close>, \<open>history\<close>, \<open>avgRiskScore\<close> and \<open>threatsDetected\<close> have after
  the call the values they had before it (for the click followed by the failure, and for
  the failure alone in any state); \<open>latestResult\<close> is kept as well, except that the body
  \<open>null\<close> clears it. The code checks nothing else of a body: every other body of a 2xx
  response, however incomplete, is a result. It becomes \<open>latestResult\<close>, is counted in
  \<open>totalAnalyses\<close> and gets an entry at the head of the history.
\<close>

theorem C2_failed_request_keeps_aggregates:
  "(failed out \<longrightarrow>
      totalAnalyses (run s [ClickAnalyze, Settle i out now]) = totalAnalyses s \<and>
      history (run s [ClickAnalyze, Settle i out now]) = history s \<and>
      avgRiskScore (run s [ClickAnalyze, Settle i out now]) = avgRiskScore s \<and>
      threatsDetected (run s [ClickAnalyze, Settle i out now]) = threatsDetected s \<and>
      totalAnalyses (step s (Settle i out now)) = totalAnalyses s \<and>
      history (step s (Settle i out now)) = history s \<and>
      avgRiskScore (step s (Settle i out now)) = avgRiskScore s \<and>
      threatsDetected (step s (Settle i out now)) = threatsDetected s) \<and>
   (failed out \<and> (\<forall>msg. out \<noteq> Body_null msg) \<longrightarrow>
      latestResult (step s (Settle i out now)) = latestResult s) \<and>
   (i < length (inflight s) \<longrightarrow>
      latestResult (step s (Settle i (Body_null msg) now)) = None) \<and>
   (i < length (inflight s) \<longrightarrow>
      latestResult (step s (Settle i (Body data) now)) = Some data \<and>
      totalAnalyses (step s (Settle i (Body data) now)) = totalAnalyses s + 1 \<and>
      threatsDetected (step s (Settle i (Body data) now)) = threatsDetected s + threatsCount data \<and>
      hd (history (step s (Settle i (Body data) now))) =
        new_entry (inflight s ! i) data now (history s))"
proof (intro conjI impI)
  assume f: "failed out"
  have settle: "totalAnalyses (step t (Settle i out now)) = totalAnalyses t \<and>
      history (step t (Settle i out now)) = history t \<and>
      avgRiskScore (step t (Settle i out now)) = avgRiskScore t \<and>
      threatsDetected (step t (Settle i out now)) = threatsDetected t" for t
    using settle_failed [OF f] by simp
  from settle [of s] settle [of "step s ClickAnalyze"] click_aggregates [of s]
  show "totalAnalyses (run s [ClickAnalyze, Settle i out now]) = totalAnalyses s"
    "history (run s [ClickAnalyze, Settle i out now]) = history s"
    "avgRiskScore (run s [ClickAnalyze, Settle i out now]) = avgRiskScore s"
    "threatsDetected (run s [ClickAnalyze, Settle i out now]) = threatsDetected s"
    "totalAnalyses (step s (Settle i out now)) = totalAnalyses s"
    "history (step s (Settle i out now)) = history s"
    "avgRiskScore (step s (Settle i out now)) = avgRiskScore s"
    "threatsDetected (step s (Settle i out now)) = threatsDetected s"
    by simp_all
next
  assume "failed out \<and> (\<forall>msg. out \<noteq> Body_null msg)"
  then show "latestResult (step s (Settle i out now)) = latestResult s"
    by (cases out) (simp_all add: analyze_settled_def catch_error_def)
next
  assume "i < length (inflight s)"
  then show "latestResult (step s (Settle i (Body_null msg) now)) = None"
    by (simp add: analyze_settled_def catch_error_def)
next
  assume i: "i < length (inflight s)"
  then show "latestResult (step s (Settle i (Body data) now)) = Some data"
    "totalAnalyses (step s (Settle i (Body data) now)) = totalAnalyses s + 1"
    "threatsDetected (step s (Settle i (Body data) now)) = threatsDetected s + threatsCount data"
    "hd (history (step s (Settle i (Body data) now))) =
       new_entry (inflight s ! i) data now (history s)"
    by (simp_all add: analyze_settled_def fold_result_def nextHistory_def)
qed

theorem C2_failed_request_keeps_aggregates_witness:
  "error (run (init\<lparr> input := ''abc'' \<rparr>) [ClickAnalyze, Settle 0 (Status_not_ok 500) ''t'']) =
     Some ''API responded with 500'' \<and>
   totalAnalyses (run (init\<lparr> input := ''abc'' \<rparr>) [ClickAnalyze, Settle 0 (Status_not_ok 500) ''t''])
     = 0 \<and>
   history (run (init\<lparr> input := ''abc'' \<rparr>) [ClickAnalyze, Settle 0 (Status_not_ok 500) ''t''])
     = [] \<and>
   safePct (run init (submit ''a'' (Body (verdict 80 False)) ''t'' @
                      [SetInput ''b'', ClickAnalyze])) = 0 \<and>
   safePct (step (run init (submit ''a'' (Body (verdict 80 False)) ''t'' @
                            [SetInput ''b'', ClickAnalyze]))
                 (Settle 0 (Body_null ''data is null'') ''u'')) = 100 \<and>
   totalAnalyses (step (run init (submit ''a'' (Body (verdict 80 False)) ''t'' @
                                  [SetInput ''b'', ClickAnalyze]))
                       (Settle 0 (Body empty_body) ''u'')) = 2"
proof -
  let ?s = "init\<lparr> input := ''abc'' \<rparr>"
  let ?t = "run init (submit ''a'' (Body (verdict 80 False)) ''t'' @ [SetInput ''b'', ClickAnalyze])"
  have f: "failed (Status_not_ok 500)" by simp
  have e: "error (run ?s [ClickAnalyze, Settle 0 (Status_not_ok 500) ''t'']) =
           Some ''API responded with 500''"
    by code_simp
  from C2_failed_request_keeps_aggregates [where out = "Status_not_ok 500" and s = ?s and i = 0
      and now = "''t''"] f
  have "totalAnalyses (run ?s [ClickAnalyze, Settle 0 (Status_not_ok 500) ''t'']) =
          totalAnalyses ?s"
    "history (run ?s [ClickAnalyze, Settle 0 (Status_not_ok 500) ''t'']) = history ?s"
    by blast+
  then have a: "totalAnalyses (run ?s [ClickAnalyze, Settle 0 (Status_not_ok 500) ''t'']) = 0"
    "history (run ?s [ClickAnalyze, Settle 0 (Status_not_ok 500) ''t'']) = []"
    by (simp_all add: init_def)
  have i: "0 < length (inflight ?t)" by code_simp
  have n: "totalAnalyses ?t = 1" by code_simp
  have before: "safePct ?t = 0" by code_simp
  from C2_failed_request_keeps_aggregates [where s = ?t and i = 0
      and msg = "''data is null''" and now = "''u''" and data = empty_body] i
  have cleared: "latestResult (step ?t (Settle 0 (Body_null ''data is null'') ''u'')) = None"
    and folded: "totalAnalyses (step ?t (Settle 0 (Body empty_body) ''u'')) = totalAnalyses ?t + 1"
    by blast+
  from cleared have after: "safePct (step ?t (Settle 0 (Body_null ''data is null'') ''u'')) = 100"
    by (simp add: safePct_def)
  from folded n have two: "totalAnalyses (step ?t (Settle 0 (Body empty_body) ''u'')) = 2"
    by simp
  from e a before after two show ?thesis by blast
qed

text \<open>
  A body that lacks the verdict, the risk score and the threat list is not treated as a
  failure. After one result with risk 80, the body \<open>{}\<close> is folded as a second result
  with risk 0: the total goes from 1 to 2, the mean from 80 to 40, and the history gets a
  second entry.
\<close>

theorem C2_incomplete_body_is_folded:
  "totalAnalyses (run init (submit ''a'' (Body (verdict 80 False)) ''t'')) = 1 \<and>
   avgRiskScore (run init (submit ''a'' (Body (verdict 80 False)) ''t'')) = 80 \<and>
   length (history (run init (submit ''a'' (Body (verdict 80 False)) ''t''))) = 1 \<and>
   totalAnalyses (run init (submit ''a'' (Body (verdict 80 False)) ''t'' @
                            submit ''b'' (Body empty_body) ''u'')) = 2 \<and>
   avgRiskScore (run init (submit ''a'' (Body (verdict 80 False)) ''t'' @
                           submit ''b'' (Body empty_body) ''u'')) = 40 \<and>
   length (history (run init (submit ''a'' (Body (verdict 80 False)) ''t'' @
                              submit ''b'' (Body empty_body) ''u''))) = 2 \<and>
   error (run init (submit ''a'' (Body (verdict 80 False)) ''t'' @
                    submit ''b'' (Body empty_body) ''u'')) = None"
  by code_simp

subsection \<open>The history\<close>

text \<open>
  Claim C3. After a run in which \<open>k\<close> requests have settled with a body, the history
  consists of the \<open>min k 5\<close> entries built last, the newest first. When the history holds
  five entries, the next result is put in front and the last (oldest) entry is dropped.
  The updater of the version in \<open>src/unnamed/part_000\<close> keeps the last five responses in
  the same way.
\<close>

theorem C3_history_last_five_newest_first:
  "history (run init es) = take 5 (rev (built init es)) \<and>
   length (history (run init es)) = min (length (built init es)) 5 \<and>
   (i < length (inflight s) \<and> length (history s) = 5 \<longrightarrow>
      history (step s (Settle i (Body data) now)) =
      new_entry (inflight s ! i) data now (history s) # butlast (history s)) \<and>
   foldl (\<lambda>prev x. nextHistory x prev) [] xs = take 5 (rev xs)"
proof (intro conjI impI)
  show h: "history (run init es) = take 5 (rev (built init es))"
    using run_history [of init es] by (simp add: init_def)
  show "length (history (run init es)) = min (length (built init es)) 5"
    by (simp add: h min.commute)
  show "foldl (\<lambda>prev x. nextHistory x prev) [] xs = take 5 (rev xs)"
    using foldl_nextHistory [of "[]" xs] by simp
next
  assume a: "i < length (inflight s) \<and> length (history s) = 5"
  then have "butlast (history s) = take 4 (history s)"
    by (simp add: butlast_conv_take)
  with a show "history (step s (Settle i (Body data) now)) =
      new_entry (inflight s ! i) data now (history s) # butlast (history s)"
    by (simp add: analyze_settled_def fold_result_def nextHistory_def)
qed

theorem C3_history_last_five_newest_first_witness:
  "length (history (run init (concat (replicate 5 (submit ''a'' (Body (verdict 10 True)) ''t''))
                              @ [ClickAnalyze]))) = 5 \<and>
   map entry_id
     (history (step (run init (concat (replicate 5 (submit ''a'' (Body (verdict 10 True)) ''t''))
                               @ [ClickAnalyze]))
                    (Settle 0 (Body (verdict 70 False)) ''u''))) =
   [''SA-000006'', ''SA-000005'', ''SA-000004'', ''SA-000003'', ''SA-000002'']"
proof -
  let ?s = "run init (concat (replicate 5 (submit ''a'' (Body (verdict 10 True)) ''t''))
                      @ [ClickAnalyze])"
  have i: "0 < length (inflight ?s)" by code_simp
  have l: "length (history ?s) = 5" by code_simp
  have ids: "map entry_id (history ?s) =
             [''SA-000005'', ''SA-000004'', ''SA-000003'', ''SA-000002'', ''SA-000001'']"
    by code_simp
  have new: "entry_id (new_entry (inflight ?s ! 0) (verdict 70 False) ''u'' (history ?s)) =
             ''SA-000006''"
    unfolding new_entry_def l by code_simp
  from C3_history_last_five_newest_first [where i = 0 and s = ?s] i l
  have "history (step ?s (Settle 0 (Body (verdict 70 False)) ''u'')) =
        new_entry (inflight ?s ! 0) (verdict 70 False) ''u'' (history ?s) # butlast (history ?s)"
    by blast
  then have "map entry_id (history (step ?s (Settle 0 (Body (verdict 70 False)) ''u''))) =
        ''SA-000006'' # butlast (map entry_id (history ?s))"
    by (simp add: new map_butlast)
  with l show ?thesis by (simp add: ids)
qed

subsection \<open>Verdicts and the total\<close>

text \<open>
  Claim C4, as the code has it. The state has no counter per verdict. \<open>totalAnalyses\<close>
  grows by one with every folded result, whatever its verdict, so it equals the number of
  safe results plus the number of unsafe results folded so far. The shares that are shown
  are computed on read from the latest result alone: after a fold the safe share is the
  \<open>safe_pct\<close> of that response when it has one, otherwise 100 or 0 by its \<open>is_safe\<close>
  (100 for a body that is not truthy); without a latest result it is 100; two states with
  the same \<open>latestResult\<close> show the same shares; and the two shares add up to 100.
\<close>

theorem C4_total_counts_every_verdict:
  "totalAnalyses (run init es) =
     length (filter entry_is_safe (built init es)) +
     length (filter (\<lambda>x. \<not> entry_is_safe x) (built init es)) \<and>
   (i < length (inflight s) \<longrightarrow>
      totalAnalyses (step s (Settle i (Body data) now)) = totalAnalyses s + 1 \<and>
      safePct (step s (Settle i (Body data) now)) =
        (case data_safe_pct data of
           Some pct \<Rightarrow> pct
         | None \<Rightarrow>
             (if data_truthy data
              then (if data_is_safe data = Some True then 100 else 0)
              else 100))) \<and>
   (latestResult s = None \<longrightarrow> safePct s = 100) \<and>
   (latestResult s = latestResult t \<longrightarrow> safePct s = safePct t \<and> unsafePct s = unsafePct t) \<and>
   safePct s + unsafePct s = 100"
proof (intro conjI impI)
  show "totalAnalyses (run init es) =
     length (filter entry_is_safe (built init es)) +
     length (filter (\<lambda>x. \<not> entry_is_safe x) (built init es))"
    using run_total [of init es] sum_length_filter_compl [of entry_is_safe "built init es"]
    by (simp add: init_def)
  show "safePct s + unsafePct s = 100"
    by (simp add: unsafePct_def)
next
  assume i: "i < length (inflight s)"
  then show "totalAnalyses (step s (Settle i (Body data) now)) = totalAnalyses s + 1"
    by (simp add: analyze_settled_def fold_result_def)
  from i show "safePct (step s (Settle i (Body data) now)) =
        (case data_safe_pct data of
           Some pct \<Rightarrow> pct
         | None \<Rightarrow>
             (if data_truthy data
              then (if data_is_safe data = Some True then 100 else 0)
              else 100))"
    by (simp add: safePct_def analyze_settled_def fold_result_def)
next
  assume "latestResult s = None"
  then show "safePct s = 100" by (simp add: safePct_def)
next
  assume l: "latestResult s = latestResult t"
  then show "safePct s = safePct t" by (simp add: safePct_def)
  with l show "unsafePct s = unsafePct t" by (simp add: unsafePct_def)
qed

theorem C4_total_counts_every_verdict_witness:
  "totalAnalyses (run init (submit ''a'' (Body (verdict 10 True)) ''t1'' @
                            submit ''b'' (Body (verdict 40 False)) ''t2'')) = 1 + 1 \<and>
   safePct (run init (submit ''a'' (Body (verdict 10 True)) ''t1'' @
                      submit ''b'' (Body (verdict 40 False)) ''t2'')) = 0 \<and>
   unsafePct (run init (submit ''a'' (Body (verdict 10 True)) ''t1'' @
                        submit ''b'' (Body (verdict 40 False)) ''t2'')) = 100 \<and>
   safePct init = 100"
proof -
  let ?es = "submit ''a'' (Body (verdict 10 True)) ''t1'' @
             submit ''b'' (Body (verdict 40 False)) ''t2''"
  let ?t = "run init (submit ''a'' (Body (verdict 10 True)) ''t1'' @ [SetInput ''b'', ClickAnalyze])"
  have b: "map entry_is_safe (built init ?es) = [True, False]"
    by code_simp
  have "length (filter entry_is_safe (built init ?es)) =
        length (filter id (map entry_is_safe (built init ?es)))"
    by (simp add: filter_map comp_def)
  then have sf: "length (filter entry_is_safe (built init ?es)) = 1"
    by (simp add: b)
  have "length (filter (\<lambda>x. \<not> entry_is_safe x) (built init ?es)) =
        length (filter Not (map entry_is_safe (built init ?es)))"
    by (simp add: filter_map comp_def)
  then have u: "length (filter (\<lambda>x. \<not> entry_is_safe x) (built init ?es)) = 1"
    by (simp add: b)
  from C4_total_counts_every_verdict [of ?es] sf u
  have total: "totalAnalyses (run init ?es) = 1 + 1" by simp
  have i: "0 < length (inflight ?t)" by code_simp
  have r: "run init ?es = step ?t (Settle 0 (Body (verdict 40 False)) ''t2'')"
    by (simp add: submit_def run_append)
  from C4_total_counts_every_verdict [where s = ?t and i = 0 and data = "verdict 40 False"
      and now = "''t2''"] i
  have "safePct (step ?t (Settle 0 (Body (verdict 40 False)) ''t2'')) =
        (case data_safe_pct (verdict 40 False) of
           Some pct \<Rightarrow> pct
         | None \<Rightarrow>
             (if data_truthy (verdict 40 False)
              then (if data_is_safe (verdict 40 False) = Some True then 100 else 0)
              else 100))"
    by blast
  also have "\<dots> = 0"
    by (simp add: verdict_def)
  finally have "safePct (step ?t (Settle 0 (Body (verdict 40 False)) ''t2'')) = 0" .
  then have share: "safePct (run init ?es) = 0"
    by (simp only: r)
  from C4_total_counts_every_verdict [where s = "run init ?es"] share
  have unsafe: "unsafePct (run init ?es) = 100" by simp
  have n: "latestResult init = None" by (simp add: init_def)
  from C4_total_counts_every_verdict [where s = init] n
  have fresh_share: "safePct init = 100" by blast
  from total share unsafe fresh_share show ?thesis by blast
qed

text \<open>
  Two runs of six results each, which differ in the verdict of the first result only, end
  in the same state: no component of the state tells how many results were safe.
\<close>

theorem C4_no_verdict_counters:
  "run init (submit ''a'' (Body (verdict 10 True)) ''t'' @
             concat (replicate 5 (submit ''a'' (Body (verdict 10 False)) ''t''))) =
   run init (submit ''a'' (Body (verdict 10 False)) ''t'' @
             concat (replicate 5 (submit ''a'' (Body (verdict 10 False)) ''t''))) \<and>
   length (filter entry_is_safe
     (built init (submit ''a'' (Body (verdict 10 True)) ''t'' @
                  concat (replicate 5 (submit ''a'' (Body (verdict 10 False)) ''t''))))) = 1 \<and>
   length (filter entry_is_safe
     (built init (submit ''a'' (Body (verdict 10 False)) ''t'' @
                  concat (replicate 5 (submit ''a'' (Body (verdict 10 False)) ''t''))))) = 0"
  by code_simp

subsection \<open>Risk levels\<close>

text \<open>
  Claim C5. \<open>getSafetyLevel\<close> yields \<open>LOW\<close> below 20, \<open>MEDIUM\<close> from 20 to below 60 and
  \<open>HIGH\<close> from 60 on, and nothing else; 19.9 is \<open>LOW\<close>, 20 and 59.9 are \<open>MEDIUM\<close>, 60 is
  \<open>HIGH\<close>.
\<close>

theorem C5_getSafetyLevel_thresholds:
  "(score < 20 \<longrightarrow> getSafetyLevel score = LOW) \<and>
   (20 \<le> score \<and> score < 60 \<longrightarrow> getSafetyLevel score = MEDIUM) \<and>
   (60 \<le> score \<longrightarrow> getSafetyLevel score = HIGH) \<and>
   getSafetyLevel score \<in> {LOW, MEDIUM, HIGH} \<and>
   getSafetyLevel 19.9 = LOW \<and> getSafetyLevel 20 = MEDIUM \<and>
   getSafetyLevel 59.9 = MEDIUM \<and> getSafetyLevel 60 = HIGH"
  by (simp add: getSafetyLevel_def)

theorem C5_getSafetyLevel_thresholds_witness:
  "getSafetyLevel 0 = LOW \<and> getSafetyLevel 35 = MEDIUM \<and> getSafetyLevel 100 = HIGH"
  using C5_getSafetyLevel_thresholds [of 0] C5_getSafetyLevel_thresholds [of 35]
    C5_getSafetyLevel_thresholds [of 100]
  by simp

subsection \<open>Blank input\<close>

text \<open>
  Claim C6. When the input is empty or consists of white space only, a call of \<open>analyze\<close>
  returns at once: the state (and with it \<open>totalAnalyses\<close>, \<open>history\<close> and \<open>error\<close>) is
  unchanged and no request is sent. The same holds for a click on the button.
\<close>

theorem C6_blank_input_is_ignored:
  assumes "\<forall>c \<in> set (input s). is_ws c"
  shows "analyze s = (s, None) \<and> step s ClickAnalyze = s \<and>
         sent s ClickAnalyze = [] \<and> pushed s ClickAnalyze = []"
  using assms by (simp add: analyze_def button_disabled_def trim_Nil_iff)

theorem C6_blank_input_is_ignored_witness:
  "analyze (init\<lparr> input := ''   '' \<rparr>) = (init\<lparr> input := ''   '' \<rparr>, None) \<and>
   step (init\<lparr> input := ''   '' \<rparr>) ClickAnalyze = init\<lparr> input := ''   '' \<rparr> \<and>
   analyze init = (init, None)"
proof -
  have a: "\<forall>c \<in> set (input (init\<lparr> input := ''   '' \<rparr>)). is_ws c"
    by (simp add: is_ws_def)
  have b: "\<forall>c \<in> set (input init). is_ws c"
    by (simp add: init_def)
  from C6_blank_input_is_ignored [OF a] C6_blank_input_is_ignored [OF b]
  show ?thesis by simp
qed


subsection \<open>One request at a time\<close>

text \<open>
  Claim C7. The button that starts \<open>analyze\<close> is disabled while \<open>isAnalyzing\<close> is set, and
  the button is the only caller of \<open>analyze\<close>. Hence in every run of the component at most
  one request is unsettled, \<open>isAnalyzing\<close> is set exactly while one is, a click in that
  time (whatever the text in the input) changes nothing and sends nothing, and the results
  folded plus the requests still unsettled never exceed the requests sent: no request is
  folded twice.
\<close>

theorem C7_one_request_in_flight:
  "length (inflight (run init es)) \<le> 1 \<and>
   isAnalyzing (run init es) = (inflight (run init es) \<noteq> []) \<and>
   (isAnalyzing s \<longrightarrow>
      step s ClickAnalyze = s \<and> sent s ClickAnalyze = [] \<and> pushed s ClickAnalyze = []) \<and>
   length (built init es) + length (inflight (run init es)) \<le> length (requests init es)"
proof (intro conjI impI)
  have inv: "ui_inv (run init es)" by (rule ui_inv_reachable)
  then show "length (inflight (run init es)) \<le> 1"
    by (auto elim: ui_inv_cases)
  from inv show "isAnalyzing (run init es) = (inflight (run init es) \<noteq> [])"
    by (auto elim: ui_inv_cases)
  show "length (built init es) + length (inflight (run init es)) \<le> length (requests init es)"
    using run_inflight [of init es] by (simp add: init_def)
next
  assume "isAnalyzing s"
  then show "step s ClickAnalyze = s" "sent s ClickAnalyze = []" "pushed s ClickAnalyze = []"
    by (simp_all add: button_disabled_def)
qed

theorem C7_one_request_in_flight_witness:
  "isAnalyzing (run init [SetInput ''a'', ClickAnalyze, SetInput ''b'']) \<and>
   step (run init [SetInput ''a'', ClickAnalyze, SetInput ''b'']) ClickAnalyze =
     run init [SetInput ''a'', ClickAnalyze, SetInput ''b''] \<and>
   requests init [SetInput ''a'', ClickAnalyze, SetInput ''b'', ClickAnalyze] = [''a'']"
proof -
  let ?s = "run init [SetInput ''a'', ClickAnalyze, SetInput ''b'']"
  have busy: "isAnalyzing ?s" by code_simp
  have r: "requests init [SetInput ''a'', ClickAnalyze, SetInput ''b'', ClickAnalyze] = [''a'']"
    by code_simp
  from C7_one_request_in_flight [where s = ?s] busy have "step ?s ClickAnalyze = ?s"
    by blast
  with busy r show ?thesis by simp
qed

subsection \<open>Before the first result\<close>

text \<open>
  Claim C8. As long as no result has been folded (\<open>totalAnalyses = 0\<close>), whatever else
  has happened, the statistics read as their defaults: no threats, average risk 0, risk
  score 0, empty history, safe share 100 and unsafe share 0. Nothing is divided on these
  reads; the only division of the component has the divisor \<open>totalAnalyses + 1\<close>, and the
  first fold takes the branch without it. The \<open>stats\<close> cell of the version in
  \<open>src/src/App.tsx\<close> starts with the same defaults.
\<close>

theorem C8_defaults_before_first_result:
  "(totalAnalyses (run init es) = 0 \<longrightarrow>
      threatsDetected (run init es) = 0 \<and> avgRiskScore (run init es) = 0 \<and>
      riskScore (run init es) = 0 \<and> history (run init es) = [] \<and>
      safePct (run init es) = 100 \<and> unsafePct (run init es) = 0) \<and>
   nextAvgRiskScore 0 r prevAvg = r \<and>
   total_analyses initial_stats = 0 \<and> threats_detected initial_stats = 0 \<and>
   average_risk_score initial_stats = 0 \<and> safe_percentage initial_stats = 100"
proof (intro conjI impI)
  assume z: "totalAnalyses (run init es) = 0"
  have "totalAnalyses init = 0 \<longrightarrow> fresh init"
    by (simp add: fresh_def init_def)
  from run_fresh [OF this z] have f: "fresh (run init es)" .
  then show "threatsDetected (run init es) = 0" "avgRiskScore (run init es) = 0"
    "riskScore (run init es) = 0" "history (run init es) = []"
    "safePct (run init es) = 100" "unsafePct (run init es) = 0"
    by (simp_all add: fresh_def riskScore_def safePct_def unsafePct_def)
qed (simp_all add: nextAvgRiskScore_def initial_stats_def)

theorem C8_defaults_before_first_result_witness:
  "totalAnalyses (run init (submit ''a'' (Body_null ''data is null'') ''t'' @
                            [ExampleClick ''b'', ClickAnalyze])) = 0 \<and>
   safePct (run init (submit ''a'' (Body_null ''data is null'') ''t'' @
                      [ExampleClick ''b'', ClickAnalyze])) = 100"
proof -
  let ?es = "submit ''a'' (Body_null ''data is null'') ''t'' @ [ExampleClick ''b'', ClickAnalyze]"
  have z: "totalAnalyses (run init ?es) = 0" by code_simp
  from C8_defaults_before_first_result [of ?es] z show ?thesis by blast
qed

subsection \<open>Identifiers of the history entries\<close>

text \<open>
  Claim C9 at a concrete input. An entry takes the \<open>id\<close> of the response when there is one
  (\<open>entry_id_of_response\<close> below); otherwise the id is made from the length of the history
  so far, which stops growing at five. Seven responses without an id leave two entries
  with the id \<open>SA-000006\<close> in the history.
\<close>

theorem C9_synthesized_ids_repeat:
  "map entry_id
     (history (run init (concat (replicate 7 (submit ''a'' (Body (verdict 10 True)) ''t''))))) =
   [''SA-000006'', ''SA-000006'', ''SA-000005'', ''SA-000004'', ''SA-000003''] \<and>
   \<not> distinct (map entry_id
     (history (run init (concat (replicate 7 (submit ''a'' (Body (verdict 10 True)) ''t''))))))"
proof -
  have "map entry_id
     (history (run init (concat (replicate 7 (submit ''a'' (Body (verdict 10 True)) ''t''))))) =
   [''SA-000006'', ''SA-000006'', ''SA-000005'', ''SA-000004'', ''SA-000003'']"
    by code_simp
  then show ?thesis by simp
qed

lemma entry_id_of_response:
  "data_id data = Some i \<Longrightarrow> entry_id (new_entry p data now prev) = i"
  "data_id data = None \<Longrightarrow>
     entry_id (new_entry p data now prev) =
     ''SA-'' @ padStart 6 (CHR ''0'') (String_nat (length prev + 1))"
  by (simp_all add: new_entry_def)

subsection \<open>Default verdict\<close>

text \<open>
  Claim C10. When the response has no \<open>is_safe\<close>, the entry built for it is safe exactly
  when its risk score is below 20, where a missing risk score counts as 0. This is the
  entry at the head of the history after the fold.
\<close>

theorem C10_missing_verdict_from_risk:
  assumes "data_is_safe data = None"
  shows "entry_is_safe (new_entry p data now prev) = (risk data < 20) \<and>
         (data_risk_score data = Some r \<longrightarrow>
            entry_is_safe (new_entry p data now prev) = (r < 20)) \<and>
         (data_risk_score data = None \<longrightarrow> entry_is_safe (new_entry p data now prev)) \<and>
         (i < length (inflight s) \<longrightarrow>
            entry_is_safe (hd (history (step s (Settle i (Body data) now)))) = (risk data < 20))"
  using assms
  by (simp add: new_entry_def risk_def analyze_settled_def fold_result_def nextHistory_def)

theorem C10_missing_verdict_from_risk_witness:
  "data_is_safe ((verdict 19.9 False)\<lparr> data_is_safe := None \<rparr>) = None \<and>
   entry_is_safe (new_entry \<lparr> closure_input = ''a'', closure_totalAnalyses = 0 \<rparr>
                    ((verdict 19.9 False)\<lparr> data_is_safe := None \<rparr>) ''t'' []) \<and>
   \<not> entry_is_safe (new_entry \<lparr> closure_input = ''a'', closure_totalAnalyses = 0 \<rparr>
                      ((verdict 20 True)\<lparr> data_is_safe := None \<rparr>) ''t'' [])"
proof -
  let ?p = "\<lparr> closure_input = ''a'', closure_totalAnalyses = 0 \<rparr>"
  have a: "data_is_safe ((verdict 19.9 False)\<lparr> data_is_safe := None \<rparr>) = None"
    and b: "data_is_safe ((verdict 20 True)\<lparr> data_is_safe := None \<rparr>) = None"
    by simp_all
  have ra: "risk ((verdict 19.9 False)\<lparr> data_is_safe := None \<rparr>) < 20"
    and rb: "\<not> risk ((verdict 20 True)\<lparr> data_is_safe := None \<rparr>) < 20"
    by (simp_all add: risk_def verdict_def)
  from C10_missing_verdict_from_risk [OF a, where p = ?p and now = "''t''" and prev = "[]"]
    C10_missing_verdict_from_risk [OF b, where p = ?p and now = "''t''" and prev = "[]"]
    a ra rb
  show ?thesis by blast
qed

end
